theory Spec2Isabelle
  imports Main "HOL-Library.Sublist"
begin

text \<open>
  The module-addressing layer of the hq development server, \<^verbatim>\<open>src/utils.mjs\<close>: the path
  classifier, the package descriptor cache, the extension prober, the entry resolver, the
  browser-aware module resolver and the listener bootstrap. The definitions follow the
  source function by function and keep its names; asynchronous functions are modelled by
  what their promise settles to.
\<close>

section \<open>JavaScript values\<close>

text \<open>
  The values that \<^verbatim>\<open>JSON.parse\<close> produces, and \<^verbatim>\<open>undefined\<close> for a property
  that is not there. An object is the list of its own properties; \<open>map_of\<close> reads it.
  A number is a double, which the code never computes with: it tests whether the number is
  truthy and it prints it (in a template literal, as a property key). So \<open>JNum t s\<close> is a
  number by these two observations: \<open>t\<close> says that it is neither zero nor \<^verbatim>\<open>NaN\<close>, and
  \<open>s\<close> is the string that JavaScript prints for it.
\<close>

datatype json = JUndefined | JNull | JBool bool | JNum bool string | JStr string
  | JArr "json list" | JObj "(string \<times> json) list"

text \<open>\<^verbatim>\<open>typeof\<close> and the truthiness test of \<^verbatim>\<open>if\<close>, \<^verbatim>\<open>!\<close>, \<^verbatim>\<open>&&\<close> and \<^verbatim>\<open>||\<close>.\<close>

fun typeof :: "json \<Rightarrow> string" where
  "typeof JUndefined = ''undefined''"
| "typeof JNull = ''object''"
| "typeof (JBool b) = ''boolean''"
| "typeof (JNum t s) = ''number''"
| "typeof (JStr s) = ''string''"
| "typeof (JArr xs) = ''object''"
| "typeof (JObj m) = ''object''"

fun truthy :: "json \<Rightarrow> bool" where
  "truthy JUndefined = False"
| "truthy JNull = False"
| "truthy (JBool b) = b"
| "truthy (JNum t s) = t"
| "truthy (JStr s) = (s \<noteq> [])"
| "truthy (JArr xs) = True"
| "truthy (JObj m) = True"

text \<open>The decimal digits of a natural number: an array index as a property key, a length.\<close>

function dec :: "nat \<Rightarrow> string" where
  "dec n = (if n < 10 then [''0123456789'' ! n]
            else dec (n div 10) @ [''0123456789'' ! (n mod 10)])"
  by pat_completeness auto
termination
  by (relation "measure id") auto

declare dec.simps [simp del]

definition array_index :: "nat \<Rightarrow> string \<Rightarrow> nat option" where
  "array_index len k = find (\<lambda>i. dec i = k) [0..<len]"

text \<open>
  \<open>get_prop v k\<close> is the own property \<open>k\<close> of \<open>v\<close>: the entry of an object, the element or
  the length of an array or string, and \<^verbatim>\<open>undefined\<close> when \<open>v\<close> has no own property of
  that name. \<open>has_own\<close> says whether there is one.
\<close>

fun get_prop :: "json \<Rightarrow> string \<Rightarrow> json" where
  "get_prop (JObj m) k = (case map_of m k of Some v \<Rightarrow> v | None \<Rightarrow> JUndefined)"
| "get_prop (JArr xs) k =
     (case array_index (length xs) k of
        Some i \<Rightarrow> xs ! i
      | None \<Rightarrow> if k = ''length'' then JNum (xs \<noteq> []) (dec (length xs)) else JUndefined)"
| "get_prop (JStr s) k =
     (case array_index (length s) k of
        Some i \<Rightarrow> JStr [s ! i]
      | None \<Rightarrow> if k = ''length'' then JNum (s \<noteq> []) (dec (length s)) else JUndefined)"
| "get_prop _ k = JUndefined"

fun has_own :: "json \<Rightarrow> string \<Rightarrow> bool" where
  "has_own (JObj m) k = (map_of m k \<noteq> None)"
| "has_own (JArr xs) k = (array_index (length xs) k \<noteq> None \<or> k = ''length'')"
| "has_own (JStr s) k = (array_index (length s) k \<noteq> None \<or> k = ''length'')"
| "has_own _ k = False"

text \<open>
  The expression \<^verbatim>\<open>v[k]\<close> reads the own property and, when there is none, walks the
  prototype chain of \<open>v\<close>: \<^verbatim>\<open>({})['constructor']\<close> is the function \<^verbatim>\<open>Object\<close>. The built-in
  prototypes belong to the engine, so which names a value inherits is a parameter,
  \<open>inh v k\<close>. What is found there is no data: a built-in function, or for
  \<^verbatim>\<open>__proto__\<close> the prototype object. It is truthy, its \<^verbatim>\<open>typeof\<close> is \<open>function\<close> or
  \<open>object\<close>, and it has no method \<^verbatim>\<open>match\<close>. \<open>Inherited k\<close> is the member found under the
  name \<open>k\<close>.
\<close>

datatype jsval = Data json | Inherited string

definition member :: "(json \<Rightarrow> string \<Rightarrow> bool) \<Rightarrow> json \<Rightarrow> string \<Rightarrow> jsval" where
  "member inh v k =
     (if has_own v k then Data (get_prop v k)
      else if inh v k then Inherited k
      else Data JUndefined)"

fun typeof_v :: "jsval \<Rightarrow> string" where
  "typeof_v (Data v) = typeof v"
| "typeof_v (Inherited k) = (if k = ''__proto__'' then ''object'' else ''function'')"

fun truthy_v :: "jsval \<Rightarrow> bool" where
  "truthy_v (Data v) = truthy v"
| "truthy_v (Inherited k) = True"

text \<open>\<^verbatim>\<open>a || b\<close> and \<^verbatim>\<open>a && b\<close>.\<close>

definition v_or :: "jsval \<Rightarrow> jsval \<Rightarrow> jsval" where
  "v_or a b = (if truthy_v a then a else b)"


text \<open>
  The names that every object inherits from \<^verbatim>\<open>Object.prototype\<close>, for evaluation: a value
  that is neither \<^verbatim>\<open>undefined\<close> nor \<^verbatim>\<open>null\<close> inherits these.
\<close>

definition object_prototype_names :: "string list" where
  "object_prototype_names = [''constructor'', ''hasOwnProperty'', ''isPrototypeOf'',
     ''propertyIsEnumerable'', ''toLocaleString'', ''toString'', ''valueOf'', ''__proto__'']"

definition inherits_object_prototype :: "json \<Rightarrow> string \<Rightarrow> bool" where
  "inherits_object_prototype v k =
     (v \<noteq> JUndefined \<and> v \<noteq> JNull \<and> k \<in> set object_prototype_names)"

text \<open>\<^verbatim>\<open>Array.prototype.join\<close>, \<^verbatim>\<open>String.prototype.split\<close> with a separator that is
  not empty, and the conversion of a value to a string in a template literal.\<close>

fun join_js :: "string \<Rightarrow> string list \<Rightarrow> string" where
  "join_js sep [] = []"
| "join_js sep [x] = x"
| "join_js sep (x # y # ys) = x @ sep @ join_js sep (y # ys)"



fun to_string :: "json \<Rightarrow> string" where
  "to_string JUndefined = ''undefined''"
| "to_string JNull = ''null''"
| "to_string (JBool b) = (if b then ''true'' else ''false'')"
| "to_string (JNum t s) = s"
| "to_string (JStr s) = s"
| "to_string (JArr xs) =
     join_js '','' (map (\<lambda>x. if x = JUndefined \<or> x = JNull then [] else to_string x) xs)"
| "to_string (JObj m) = ''[object Object]''"


text \<open>What \<^verbatim>\<open>new Error(message)\<close> carries, and the \<^verbatim>\<open>TypeError\<close> of the engine.\<close>

datatype error = Error string | TypeError

section \<open>Path classifier\<close>

text \<open>\<^verbatim>\<open>String.prototype.endsWith\<close> and \<^verbatim>\<open>startsWith\<close>.\<close>

definition endsWith :: "string \<Rightarrow> string \<Rightarrow> bool" where
  "endsWith s t = (drop (length s - length t) s = t)"


definition isSource :: "string \<Rightarrow> bool" where
  "isSource ext = (ext \<in> set [''.pug'', ''.html'', ''.css'', ''.scss'', ''.sass'', ''.less'',
     ''.js'', ''.jsx'', ''.mjs'', ''.es6'', ''.vue'', ''.svelte'', ''.ts'', ''.tsx'',
     ''.coffee'', ''.map''])"

definition getResType :: "string \<Rightarrow> string" where
  "getResType ext =
     (if ext = ''.jsx'' \<or> ext = ''.ts'' \<or> ext = ''.tsx'' \<or> ext = ''.es6'' \<or> ext = ''.vue''
         \<or> ext = ''.svelte'' \<or> ext = ''.coffee'' then ''.js''
      else if ext = ''.scss'' \<or> ext = ''.sass'' \<or> ext = ''.less'' then ''.css''
      else if ext = ''.pug'' then ''.html''
      else ext)"

subsection \<open>The worker pattern\<close>

text \<open>
  \<^verbatim>\<open>WORKER_REXP = /(worker|sw)\d*\b/i\<close>. A match at position \<open>i\<close> of \<open>s\<close> is one of the
  two literals, compared after \<open>canonicalize\<close> (the \<^verbatim>\<open>i\<close> flag), then some number \<open>k\<close>
  of digits (\<^verbatim>\<open>\d*\<close> with its backtracking), then \<^verbatim>\<open>\b\<close>: exactly one of the characters
  before and after the position is a word character. \<^verbatim>\<open>test\<close> looks for a match at
  any position.
\<close>

definition is_digit :: "char \<Rightarrow> bool" where
  "is_digit c = (c \<in> set ''0123456789'')"

definition is_word_char :: "char \<Rightarrow> bool" where
  "is_word_char c =
     (c \<in> set ''abcdefghijklmnopqrstuvwxyzABCDEFGHIJKLMNOPQRSTUVWXYZ0123456789_'')"

definition canonicalize :: "char \<Rightarrow> char" where
  "canonicalize c =
     (case map_of (zip ''abcdefghijklmnopqrstuvwxyz'' ''ABCDEFGHIJKLMNOPQRSTUVWXYZ'') c of
        Some u \<Rightarrow> u
      | None \<Rightarrow> c)"

definition word_boundary :: "string \<Rightarrow> nat \<Rightarrow> bool" where
  "word_boundary s e =
     ((0 < e \<and> e - 1 < length s \<and> is_word_char (s ! (e - 1)))
        \<noteq> (e < length s \<and> is_word_char (s ! e)))"

definition literal_at :: "string \<Rightarrow> string \<Rightarrow> nat \<Rightarrow> bool" where
  "literal_at lit s i =
     (i + length lit \<le> length s
      \<and> map canonicalize (take (length lit) (drop i s)) = map canonicalize lit)"

definition digits_at :: "string \<Rightarrow> nat \<Rightarrow> nat \<Rightarrow> bool" where
  "digits_at s i k = (i + k \<le> length s \<and> list_all is_digit (take k (drop i s)))"

definition WORKER_REXP_at :: "string \<Rightarrow> nat \<Rightarrow> bool" where
  "WORKER_REXP_at s i =
     list_ex (\<lambda>lit. literal_at lit s i
        \<and> list_ex (\<lambda>k. digits_at s (i + length lit) k \<and> word_boundary s (i + length lit + k))
             [0..<Suc (length s)])
       [''worker'', ''sw'']"

definition WORKER_REXP_test :: "string \<Rightarrow> bool" where
  "WORKER_REXP_test s = list_ex (WORKER_REXP_at s) [0..<Suc (length s)]"

definition isWorker :: "string \<Rightarrow> bool" where
  "isWorker filePath = WORKER_REXP_test filePath"

text \<open>The file name of a path: what follows its last \<open>/\<close>.\<close>

definition filename :: "string \<Rightarrow> string" where
  "filename p = rev (takeWhile (\<lambda>c. c \<noteq> CHR ''/'') (rev p))"

text \<open>
  The predicate as the specification words it: the pattern is looked for in the file name
  only, and as a whole word, with a word boundary before it as well as after it.
\<close>

definition spec_isWorker :: "string \<Rightarrow> bool" where
  "spec_isWorker filePath =
     list_ex (\<lambda>i. word_boundary (filename filePath) i \<and> WORKER_REXP_at (filename filePath) i)
       [0..<Suc (length (filename filePath))]"

text \<open>
  What a match is, said without positions: the string is cut into four pieces, the second
  is one of the two literals up to case, the third is made of digits, and the fourth is
  empty or starts with a character that is not a word character.
\<close>

definition token_ok :: "string \<Rightarrow> bool" where
  "token_ok tok =
     (map canonicalize tok = map canonicalize ''worker''
      \<or> map canonicalize tok = map canonicalize ''sw'')"

definition worker_token :: "string \<Rightarrow> bool" where
  "worker_token p =
     (\<exists>pre tok ds post. p = pre @ tok @ ds @ post \<and> token_ok tok \<and> list_all is_digit ds
        \<and> (case post of [] \<Rightarrow> True | c # _ \<Rightarrow> \<not> is_word_char c))"

subsection \<open>Versions of dependencies\<close>

text \<open>
  \<^verbatim>\<open>version.match(/\d+/g)\<close> is the list of the maximal runs of digits, or \<^verbatim>\<open>null\<close>
  when there is none; destructuring \<^verbatim>\<open>null\<close> throws a \<^verbatim>\<open>TypeError\<close>, and so does the
  call of \<^verbatim>\<open>match\<close> on a value that has no such method: every value but a string,
  inherited members included. The fields of the result are the numbers that
  \<^verbatim>\<open>Number\<close> makes of the first three runs: \<open>Number r\<close> stands for \<^verbatim>\<open>Number(r)\<close>, and
  \<open>NaN\<close> for \<^verbatim>\<open>Number(undefined)\<close> when the run is missing. \<open>NoVersion\<close> is the empty
  record \<^verbatim>\<open>{}\<close>.
\<close>

function digit_runs :: "string \<Rightarrow> string list" where
  "digit_runs [] = []"
| "digit_runs (c # cs) =
     (if is_digit c then (c # takeWhile is_digit cs) # digit_runs (dropWhile is_digit cs)
      else digit_runs cs)"
  by pat_completeness auto
termination
  by (relation "measure length") (auto simp: length_dropWhile_le less_Suc_eq_le)

datatype number = Number string | NaN

definition nth_number :: "string list \<Rightarrow> nat \<Rightarrow> number" where
  "nth_number ms i = (if i < length ms then Number (ms ! i) else NaN)"

datatype version = NoVersion | Version number number number

definition getVersion :: "(json \<Rightarrow> string \<Rightarrow> bool) \<Rightarrow> json \<Rightarrow> string \<Rightarrow> error + version" where
  "getVersion inh dependencies name =
     (if \<not> truthy dependencies then Inr NoVersion
      else let ver = member inh dependencies name in
        if \<not> truthy_v ver then Inr NoVersion
        else case ver of
          Data (JStr s) \<Rightarrow>
            (case digit_runs s of
               [] \<Rightarrow> Inl TypeError
             | ms \<Rightarrow> Inr (Version (nth_number ms 0) (nth_number ms 1) (nth_number ms 2)))
        | _ \<Rightarrow> Inl TypeError)"

section \<open>Extension prober\<close>

text \<open>
  The disk is the predicate \<open>pathExists\<close> on paths (\<^verbatim>\<open>fs.pathExists\<close>). The chain of
  \<^verbatim>\<open>else if\<close> of the source is kept branch by branch; the \<^verbatim>\<open>throw\<close> is the
  \<open>Inl\<close> result.
\<close>

definition findExistingExtension :: "(string \<Rightarrow> bool) \<Rightarrow> string \<Rightarrow> error + string" where
  "findExistingExtension pathExists filepath =
     (if endsWith filepath ''index'' \<and> pathExists (filepath @ ''.html'') then Inr ''.html''
      else if pathExists (filepath @ ''.jsx'') then Inr ''.jsx''
      else if pathExists (filepath @ ''.vue'') then Inr ''.vue''
      else if pathExists (filepath @ ''.svelte'') then Inr ''.svelte''
      else if pathExists (filepath @ ''.mjs'') then Inr ''.mjs''
      else if pathExists (filepath @ ''.json'') then Inr ''.json''
      else if pathExists (filepath @ ''.ts'') then Inr ''.ts''
      else if pathExists (filepath @ ''.tsx'') then Inr ''.tsx''
      else if pathExists (filepath @ ''.coffee'') then Inr ''.coffee''
      else if pathExists (filepath @ ''.es6'') then Inr ''.es6''
      else if pathExists (filepath @ ''.js'') then Inr ''.js''
      else if pathExists filepath then Inr ''''
      else if \<not> endsWith filepath ''index'' \<and> pathExists (filepath @ ''.html'') then Inr ''.html''
      else Inl (Error (''File '' @ filepath @ '' not found'')))"

text \<open>
  The probing order as a list, to compare the chain with: the extensions between the two
  markup probes, and the whole list for a path, markup first when \<open>index_like\<close> holds of
  the path and last otherwise.
\<close>

definition middle_extensions :: "string list" where
  "middle_extensions = [''.jsx'', ''.vue'', ''.svelte'', ''.mjs'', ''.json'', ''.ts'', ''.tsx'',
     ''.coffee'', ''.es6'', ''.js'', '''']"

definition candidates :: "bool \<Rightarrow> string list" where
  "candidates index_like =
     (if index_like then [''.html''] else []) @ middle_extensions @
     (if index_like then [] else [''.html''])"

definition first_existing :: "(string \<Rightarrow> bool) \<Rightarrow> string \<Rightarrow> string list \<Rightarrow> error + string" where
  "first_existing pathExists filepath exts =
     (case find (\<lambda>e. pathExists (filepath @ e)) exts of
        Some e \<Rightarrow> Inr e
      | None \<Rightarrow> Inl (Error (''File '' @ filepath @ '' not found'')))"

text \<open>
  The order as the specification words it: markup first only when the file name of the
  path is exactly \<open>index\<close>.
\<close>

definition spec_findExistingExtension :: "(string \<Rightarrow> bool) \<Rightarrow> string \<Rightarrow> error + string" where
  "spec_findExistingExtension pathExists filepath =
     first_existing pathExists filepath (candidates (filename filepath = ''index''))"

section \<open>The platform\<close>

text \<open>
  The repository calls Node's \<^verbatim>\<open>path\<close> module and the \<^verbatim>\<open>resolve\<close> package; neither is
  part of it, so both are parameters of the model, as are the names that the engine's
  built-in prototypes give to a value (\<open>inherits\<close>). The \<^verbatim>\<open>resolve\<close> package is given the
  two hooks \<^verbatim>\<open>packageFilter\<close> and \<^verbatim>\<open>pathFilter\<close> and a callback. What it does with them
  is a value of type \<open>lib\<close>: it calls a hook with arguments of its choice and goes on
  with what the hook returns, or it calls the callback with an error or a path, which
  ends the resolution. The closure state of the repository's hooks is not in its reach.
\<close>

record descriptor =
  browser :: json
  main :: json
  module :: json
  version :: json

datatype lib =
    PackageFilter descriptor "descriptor \<Rightarrow> lib"
  | PathFilter descriptor string string "json \<Rightarrow> lib"
  | Callback "error option" json

record platform =
  path_extname :: "string \<Rightarrow> string"
  path_resolve :: "string \<Rightarrow> string \<Rightarrow> string"
  path_join :: "string \<Rightarrow> string \<Rightarrow> string"
  isCore :: "string \<Rightarrow> bool"
  resolvePackage :: "string \<Rightarrow> string \<Rightarrow> string list \<Rightarrow> lib"
  inherits :: "json \<Rightarrow> string \<Rightarrow> bool"

text \<open>
  The disk: which paths exist, and what \<^verbatim>\<open>JSON.parse\<close> makes of a file (\<open>None\<close> when
  reading or parsing throws).
\<close>

record disk =
  fs_pathExists :: "string \<Rightarrow> bool"
  fs_readJSON :: "string \<Rightarrow> json option"

section \<open>Package descriptor cache\<close>

text \<open>
  The loop of \<^verbatim>\<open>getPackageJSONDir\<close> ends only when a descriptor is found or a step no
  longer changes the path, so it is a partial function: \<open>None\<close> is a walk that never
  ends. The result \<open>Some None\<close> is \<^verbatim>\<open>null\<close>.
\<close>

partial_function (option) walk_up :: "platform \<Rightarrow> disk \<Rightarrow> string \<Rightarrow> string \<Rightarrow> string option" where
  "walk_up E FS dirPath prev =
     (if dirPath \<noteq> prev \<and> \<not> fs_pathExists FS (path_join E dirPath ''package.json'')
      then walk_up E FS (path_join E dirPath ''..'') dirPath
      else Some dirPath)"

definition getPackageJSONDir :: "platform \<Rightarrow> disk \<Rightarrow> string \<Rightarrow> string option option" where
  "getPackageJSONDir E FS dir =
     (case walk_up E FS dir [] of
        None \<Rightarrow> None
      | Some dirPath \<Rightarrow>
          if \<not> fs_pathExists FS (path_join E dirPath ''package.json'') then Some None
          else Some (Some dirPath))"

definition empty_descriptor :: descriptor where
  "empty_descriptor =
     \<lparr>browser = JUndefined, main = JUndefined, module = JUndefined, version = JUndefined\<rparr>"

text \<open>
  \<^verbatim>\<open>readPackageJSON\<close> with its default list of fields. The module-level map
  \<^verbatim>\<open>packageJSONMap\<close> is passed in and returned. A directory that is \<^verbatim>\<open>null\<close> makes
  \<^verbatim>\<open>path.join\<close> throw: inside the \<^verbatim>\<open>try\<close> that gives the empty descriptor, in the
  search before it an error. Reading a field of \<^verbatim>\<open>null\<close> throws inside the \<^verbatim>\<open>try\<close>
  as well. The four fields are read as own properties: no built-in prototype has a
  property named \<open>browser\<close>, \<open>main\<close>, \<open>module\<close> or \<open>version\<close>.
\<close>

definition readPackageJSON ::
  "platform \<Rightarrow> disk \<Rightarrow> (string \<rightharpoonup> descriptor) \<Rightarrow> string option \<Rightarrow> bool
     \<Rightarrow> (error + descriptor \<times> (string \<rightharpoonup> descriptor)) option" where
  "readPackageJSON E FS packageJSONMap dir search =
     (case (if search
            then (case dir of
                    None \<Rightarrow> Some (Inl TypeError)
                  | Some d \<Rightarrow> map_option Inr (getPackageJSONDir E FS d))
            else Some (Inr dir)) of
        None \<Rightarrow> None
      | Some (Inl e) \<Rightarrow> Some (Inl e)
      | Some (Inr None) \<Rightarrow> Some (Inr (empty_descriptor, packageJSONMap))
      | Some (Inr (Some dirPath)) \<Rightarrow>
          (case packageJSONMap dirPath of
             Some cached \<Rightarrow> Some (Inr (cached, packageJSONMap))
           | None \<Rightarrow>
               (case fs_readJSON FS (path_join E dirPath ''package.json'') of
                  None \<Rightarrow> Some (Inr (empty_descriptor, packageJSONMap))
                | Some packageJSON \<Rightarrow>
                    if packageJSON = JNull \<or> packageJSON = JUndefined
                    then Some (Inr (empty_descriptor, packageJSONMap))
                    else let filteredJSON = \<lparr>browser = get_prop packageJSON ''browser'',
                               main = get_prop packageJSON ''main'',
                               module = get_prop packageJSON ''module'',
                               version = get_prop packageJSON ''version''\<rparr>
                         in Some (Inr (filteredJSON, packageJSONMap(dirPath \<mapsto> filteredJSON))))))"

section \<open>Entry resolver\<close>



text \<open>
  The operands of the chain, named: the browser field as a string, and what the lookup in
  a browser mapping finds under the \<open>./\<close>-prefixed \<open>main\<close> or else under \<open>main\<close> itself.
  \<open>stored_main_entry\<close> is the same read of own properties only: the substitution that
  the mapping stores.
\<close>

definition browser_main_entry :: "platform \<Rightarrow> descriptor \<Rightarrow> jsval" where
  "browser_main_entry E pkg =
     v_or (member (inherits E) (browser pkg) (''./'' @ to_string (main pkg)))
          (member (inherits E) (browser pkg) (to_string (main pkg)))"

definition stored_main_entry :: "descriptor \<Rightarrow> jsval" where
  "stored_main_entry pkg =
     v_or (Data (get_prop (browser pkg) (''./'' @ to_string (main pkg))))
          (Data (get_prop (browser pkg) (to_string (main pkg))))"




section \<open>Browser-aware module resolver\<close>























section \<open>A platform, a library run, descriptors and a disk for evaluation\<close>







section \<open>Listener bootstrap\<close>

text \<open>
  \<open>listen port\<close> is what binding the port gives: \<open>None\<close> when the server listens, the
  error otherwise (also a synchronous one, which rejects the promise as well). Every port
  is tried at most once, so a function of the port says all there is. The result is the
  certificate paths without the root prefix, and the port that stands for the server.
\<close>

definition MAX_RETRY :: nat where
  "MAX_RETRY = 30"

record bound =
  bound_certs :: "string list"
  bound_port :: nat

function getFreeServer ::
  "(nat \<Rightarrow> error option) \<Rightarrow> string list \<Rightarrow> string \<Rightarrow> nat \<Rightarrow> nat \<Rightarrow> error + bound" where
  "getFreeServer listen certs root port retry =
     (case listen port of
        None \<Rightarrow>
          Inr \<lparr>bound_certs = map (\<lambda>crt. drop (length root) crt) certs, bound_port = port\<rparr>
      | Some err \<Rightarrow>
          if retry > MAX_RETRY then Inl err
          else getFreeServer listen certs root (port + 1) (retry + 1))"
  by pat_completeness auto
termination
  by (relation "measure (\<lambda>(listen, certs, root, port, retry). Suc MAX_RETRY - retry)") auto

declare getFreeServer.simps [simp del]

text \<open>
  The bootstrap as the specification words it: what is compared with the ceiling is the
  number of bind attempts made, the failing one included, so it is 1 at the first bind.
\<close>

function spec_getFreeServer ::
  "(nat \<Rightarrow> error option) \<Rightarrow> string list \<Rightarrow> string \<Rightarrow> nat \<Rightarrow> nat \<Rightarrow> error + bound" where
  "spec_getFreeServer listen certs root port attempts =
     (case listen port of
        None \<Rightarrow>
          Inr \<lparr>bound_certs = map (\<lambda>crt. drop (length root) crt) certs, bound_port = port\<rparr>
      | Some err \<Rightarrow>
          if attempts > MAX_RETRY then Inl err
          else spec_getFreeServer listen certs root (port + 1) (attempts + 1))"
  by pat_completeness auto
termination
  by (relation "measure (\<lambda>(listen, certs, root, port, attempts). Suc MAX_RETRY - attempts)") auto

declare spec_getFreeServer.simps [simp del]

text \<open>Ports up to a bound are occupied, for evaluation.\<close>

definition occupied_below :: "nat \<Rightarrow> nat \<Rightarrow> error option" where
  "occupied_below n p = (if p < n then Some (Error ''EADDRINUSE'') else None)"

section \<open>Properties of the path classifier\<close>

text \<open>
  C8: for every extension of the recognised source dialects, applying \<open>getResType\<close>
  twice gives what applying it once gives.
\<close>

theorem getResType_idempotent:
  "isSource ext \<Longrightarrow> getResType (getResType ext) = getResType ext"
  by (simp add: getResType_def)

theorem getResType_idempotent_witness:
  "isSource ''.tsx'' \<and> getResType ''.tsx'' = ''.js''
     \<and> getResType (getResType ''.tsx'') = getResType ''.tsx''"
proof -
  have src: "isSource ''.tsx''" by (simp add: isSource_def)
  show ?thesis using src getResType_idempotent [OF src] by (simp add: getResType_def)
qed

section \<open>Properties of the extension prober\<close>

lemma find_middle:
  "find P middle_extensions =
     (if P ''.jsx'' then Some ''.jsx'' else if P ''.vue'' then Some ''.vue''
      else if P ''.svelte'' then Some ''.svelte'' else if P ''.mjs'' then Some ''.mjs''
      else if P ''.json'' then Some ''.json'' else if P ''.ts'' then Some ''.ts''
      else if P ''.tsx'' then Some ''.tsx'' else if P ''.coffee'' then Some ''.coffee''
      else if P ''.es6'' then Some ''.es6'' else if P ''.js'' then Some ''.js''
      else if P '''' then Some '''' else None)"
  by (simp add: middle_extensions_def)

lemma find_append:
  "find P (xs @ ys) = (case find P xs of Some x \<Rightarrow> Some x | None \<Rightarrow> find P ys)"
  by (induction xs) auto

text \<open>
  C5 (as the code has it): the prober returns the first extension of the fixed list whose
  file exists, markup first when the path ends with the characters \<open>index\<close> and last
  otherwise, and fails with the error \<open>File <path> not found\<close> when none exists.
\<close>

theorem findExistingExtension_order:
  "findExistingExtension pathExists filepath =
     first_existing pathExists filepath (candidates (endsWith filepath ''index''))"
proof (cases "endsWith filepath ''index''")
  case True
  then show ?thesis
    unfolding findExistingExtension_def first_existing_def candidates_def
    by (simp add: find_append find_middle)
next
  case False
  then show ?thesis
    unfolding findExistingExtension_def first_existing_def candidates_def
    by (simp add: find_append find_middle)
qed

text \<open>
  C5, as worded, fails: it has the first probe "only when the basename is \<open>index\<close>",
  and the code tests the end of the whole path. For the path
  \<open>/p/reindex\<close>, whose file name is not \<open>index\<close>, with \<open>/p/reindex.html\<close> and
  \<open>/p/reindex.jsx\<close> on disk, the code answers \<open>.html\<close>; the worded order answers
  \<open>.jsx\<close>.
\<close>

theorem findExistingExtension_basename_counterexample:
  "findExistingExtension (\<lambda>p. p = ''/p/reindex.html'' \<or> p = ''/p/reindex.jsx'') ''/p/reindex''
      = Inr ''.html''
   \<and> spec_findExistingExtension (\<lambda>p. p = ''/p/reindex.html'' \<or> p = ''/p/reindex.jsx'') ''/p/reindex''
      = Inr ''.jsx''"
  by (simp add: findExistingExtension_def spec_findExistingExtension_def first_existing_def
      candidates_def middle_extensions_def filename_def endsWith_def)

text \<open>
  C4 (as the code has it): \<open>findExistingExtension '/p/index'\<close> is \<open>.html\<close> whenever
  \<open>/p/index.html\<close> exists, whether or not \<open>/p/index.jsx\<close> exists too; it is \<open>.jsx\<close>
  when \<open>/p/index.jsx\<close> exists and \<open>/p/index.html\<close> does not.
\<close>

theorem findExistingExtension_index:
  "(pathExists ''/p/index.html'' \<longrightarrow>
      findExistingExtension pathExists ''/p/index'' = Inr ''.html'')
   \<and> (\<not> pathExists ''/p/index.html'' \<and> pathExists ''/p/index.jsx'' \<longrightarrow>
      findExistingExtension pathExists ''/p/index'' = Inr ''.jsx'')"
  by (simp add: findExistingExtension_def endsWith_def)

theorem findExistingExtension_index_witness:
  "findExistingExtension (\<lambda>p. p = ''/p/index.html'') ''/p/index'' = Inr ''.html''
   \<and> findExistingExtension (\<lambda>p. p = ''/p/index.jsx'') ''/p/index'' = Inr ''.jsx''"
  using findExistingExtension_index [of "\<lambda>p. p = ''/p/index.html''"]
    findExistingExtension_index [of "\<lambda>p. p = ''/p/index.jsx''"]
  by simp

text \<open>
  C4, as worded, fails: with both \<open>/p/index.jsx\<close> and \<open>/p/index.html\<close> on disk the
  code answers \<open>.html\<close>, not \<open>.jsx\<close>, since markup is probed first for a path that ends
  with \<open>index\<close>.
\<close>

theorem findExistingExtension_index_counterexample:
  "findExistingExtension (\<lambda>p. p = ''/p/index.jsx'' \<or> p = ''/p/index.html'') ''/p/index''
      = Inr ''.html''
   \<and> findExistingExtension (\<lambda>p. p = ''/p/index.jsx'' \<or> p = ''/p/index.html'') ''/p/index''
      \<noteq> Inr ''.jsx''"
  by (simp add: findExistingExtension_def endsWith_def)

section \<open>Properties of the worker predicate\<close>

lemma canonicalize_R: "canonicalize c = CHR ''R'' \<Longrightarrow> is_word_char c"
  by (auto simp: canonicalize_def is_word_char_def split: option.splits if_splits)

lemma canonicalize_W: "canonicalize c = CHR ''W'' \<Longrightarrow> is_word_char c"
  by (auto simp: canonicalize_def is_word_char_def split: option.splits if_splits)

lemma digit_is_word_char: "is_digit c \<Longrightarrow> is_word_char c"
  by (auto simp: is_digit_def is_word_char_def)

lemma token_ok_last: "token_ok tok \<Longrightarrow> tok \<noteq> [] \<and> is_word_char (last tok)"
  unfolding token_ok_def
proof (elim disjE)
  assume a: "map canonicalize tok = map canonicalize ''worker''"
  then have "length tok = 6"
    using length_map [of canonicalize tok] by (simp del: length_map)
  then obtain a1 a2 a3 a4 a5 a6 where t: "tok = [a1, a2, a3, a4, a5, a6]"
    by (auto simp: length_Suc_conv eval_nat_numeral)
  with a have "canonicalize a6 = CHR ''R''"
    by (simp add: canonicalize_def)
  with t show ?thesis
    by (simp add: canonicalize_R)
next
  assume a: "map canonicalize tok = map canonicalize ''sw''"
  then have "length tok = 2"
    using length_map [of canonicalize tok] by (simp del: length_map)
  then obtain a1 a2 where t: "tok = [a1, a2]"
    by (auto simp: length_Suc_conv eval_nat_numeral)
  with a have "canonicalize a2 = CHR ''W''"
    by (simp add: canonicalize_def)
  with t show ?thesis
    by (simp add: canonicalize_W)
qed

lemma token_ok_literal:
  "token_ok tok \<longleftrightarrow>
     (\<exists>lit \<in> set [''worker'', ''sw''].
        length tok = length lit \<and> map canonicalize tok = map canonicalize lit)"
  by (auto simp: token_ok_def dest: map_eq_imp_length_eq)

lemma word_char_before_end:
  assumes "token_ok tok" and "list_all is_digit ds"
  shows "is_word_char ((tok @ ds) ! (length tok + length ds - 1))"
proof (cases "ds = []")
  case True
  have "tok \<noteq> []" and w: "is_word_char (last tok)"
    using token_ok_last [OF assms(1)] by simp_all
  then have "last tok = tok ! (length tok - 1)"
    by (simp add: last_conv_nth)
  with w True show ?thesis by simp
next
  case False
  then have "(tok @ ds) ! (length tok + length ds - 1) = last ds"
    by (metis last_appendR last_conv_nth length_append append_is_Nil_conv)
  moreover have "is_digit (last ds)"
    using assms(2) False by (simp add: list_all_iff)
  ultimately show ?thesis
    by (simp add: digit_is_word_char)
qed

lemma boundary_after_token:
  assumes "token_ok tok" and "list_all is_digit ds"
  shows "word_boundary (pre @ tok @ ds @ post) (length pre + length tok + length ds)
     \<longleftrightarrow> (case post of [] \<Rightarrow> True | c # _ \<Rightarrow> \<not> is_word_char c)"
proof -
  let ?s = "pre @ tok @ ds @ post"
  let ?e = "length pre + length tok + length ds"
  have tl: "tok \<noteq> []"
    using token_ok_last [OF assms(1)] by simp
  have e1: "?e - 1 = length pre + (length tok + length ds - 1)"
    using tl by (cases tok) auto
  have "?s ! (?e - 1) = ((tok @ ds) @ post) ! (length tok + length ds - 1)"
    unfolding e1 using nth_append_length_plus [of pre "(tok @ ds) @ post"] by simp
  also have "\<dots> = (tok @ ds) ! (length tok + length ds - 1)"
    using tl by (subst nth_append) (cases tok, auto)
  finally have "?s ! (?e - 1) = (tok @ ds) ! (length tok + length ds - 1)" .
  then have p: "is_word_char (?s ! (?e - 1))"
    using word_char_before_end [OF assms] by simp
  have e0: "0 < ?e" "?e - 1 < length ?s"
    using tl by (cases tok, auto)+
  have n: "(?e < length ?s \<and> is_word_char (?s ! ?e))
      \<longleftrightarrow> (case post of [] \<Rightarrow> False | c # _ \<Rightarrow> is_word_char c)"
    by (cases post) (auto simp: nth_append)
  show ?thesis
    unfolding word_boundary_def using p e0 n by (cases post) auto
qed

lemma isWorker_worker_token: "isWorker p \<longleftrightarrow> worker_token p"
proof
  assume "isWorker p"
  then obtain i where at: "WORKER_REXP_at p i"
    unfolding isWorker_def WORKER_REXP_test_def list_ex_iff by blast
  then obtain lit k where lit: "lit \<in> set [''worker'', ''sw'']"
    and la: "literal_at lit p i" and da: "digits_at p (i + length lit) k"
    and wb: "word_boundary p (i + length lit + k)"
    unfolding WORKER_REXP_at_def list_ex_iff by blast
  have i: "i \<le> length p"
    using la by (simp add: literal_at_def)
  define tok where "tok = take (length lit) (drop i p)"
  define ds where "ds = take k (drop (i + length lit) p)"
  define post where "post = drop (i + length lit + k) p"
  have lt: "length tok = length lit"
    using la by (auto simp: tok_def literal_at_def)
  have ld: "length ds = k"
    using da by (auto simp: ds_def digits_at_def)
  have p: "p = take i p @ tok @ ds @ post"
    unfolding tok_def ds_def post_def
    by (metis append_take_drop_id drop_drop add.commute)
  have tok: "token_ok tok"
    unfolding token_ok_literal using lit la lt by (auto simp: literal_at_def tok_def)
  have dig: "list_all is_digit ds"
    using da by (simp add: digits_at_def ds_def)
  have li: "length (take i p) = i"
    using i by simp
  have "word_boundary (take i p @ tok @ ds @ post)
      (length (take i p) + length tok + length ds)"
    using wb lt ld p unfolding li by simp
  then have "(case post of [] \<Rightarrow> True | c # _ \<Rightarrow> \<not> is_word_char c)"
    unfolding boundary_after_token [OF tok dig] .
  with p tok dig show "worker_token p"
    unfolding worker_token_def by blast
next
  assume "worker_token p"
  then obtain pre tok ds post where p: "p = pre @ tok @ ds @ post" and tok: "token_ok tok"
    and dig: "list_all is_digit ds"
    and post: "(case post of [] \<Rightarrow> True | c # _ \<Rightarrow> \<not> is_word_char c)"
    unfolding worker_token_def by blast
  from tok obtain lit where lit: "lit \<in> set [''worker'', ''sw'']"
    and ll: "length tok = length lit"
    and mc: "map canonicalize tok = map canonicalize lit"
    unfolding token_ok_literal by blast
  have la: "literal_at lit p (length pre)"
    using p ll mc by (simp add: literal_at_def)
  have da: "digits_at p (length pre + length lit) (length ds)"
    using p ll dig by (simp add: digits_at_def)
  have wb: "word_boundary p (length pre + length lit + length ds)"
    using boundary_after_token [OF tok dig, of pre post] post p ll by simp
  have "WORKER_REXP_at p (length pre)"
    unfolding WORKER_REXP_at_def list_ex_iff
    using lit la da wb p by (intro bexI [of _ lit]) (auto intro!: bexI [of _ "length ds"])
  then show "isWorker p"
    unfolding isWorker_def WORKER_REXP_test_def list_ex_iff
    using p by (auto intro!: bexI [of _ "length pre"])
qed

lemma isWorker_worker2: "isWorker ''/src/worker2.js''"
  by code_simp

lemma isWorker_workers_utils: "\<not> isWorker ''/src/workers-utils.js''"
  by code_simp

text \<open>
  C7 (as the code has it): \<open>isWorker\<close> holds of a path exactly when the path, directories
  included, contains \<open>worker\<close> or \<open>sw\<close> in any case, then digits or none, and then ends
  or goes on with a character that is not a letter, a digit or an underscore; nothing is
  asked of the character before the word. \<open>isWorker '/src/worker2.js'\<close> holds and
  \<open>isWorker '/src/workers-utils.js'\<close> does not.
\<close>

theorem isWorker_whole_path:
  "(isWorker p \<longleftrightarrow>
      (\<exists>pre tok ds post. p = pre @ tok @ ds @ post
         \<and> (map canonicalize tok = map canonicalize ''worker''
              \<or> map canonicalize tok = map canonicalize ''sw'')
         \<and> list_all is_digit ds
         \<and> (case post of [] \<Rightarrow> True | c # _ \<Rightarrow> \<not> is_word_char c)))
   \<and> isWorker ''/src/worker2.js'' \<and> \<not> isWorker ''/src/workers-utils.js''"
  using isWorker_worker_token [of p] isWorker_worker2 isWorker_workers_utils
  unfolding worker_token_def token_ok_def by simp

text \<open>
  C7, as worded, fails: it reads the pattern in the file name only, and as a whole word.
  The code accepts \<open>/sw/app.js\<close>, whose file name \<open>app.js\<close> has no such word, and
  \<open>/src/answ.js\<close>, where \<open>sw\<close> is the end of the word \<open>answ\<close>.
\<close>

theorem isWorker_filename_counterexample:
  "isWorker ''/sw/app.js'' \<and> \<not> spec_isWorker ''/sw/app.js''
   \<and> isWorker ''/src/answ.js'' \<and> \<not> spec_isWorker ''/src/answ.js''"
  by code_simp

section \<open>Properties of the property lookup\<close>

lemma get_prop_not_own: "\<not> has_own v k \<Longrightarrow> get_prop v k = JUndefined"
  by (cases v) (auto split: option.splits)

text \<open>
  A member that is not an own property is never a string or a boolean, so a test for one
  of these two types reads the own property.
\<close>

lemma member_string_or_boolean:
  "(typeof_v (member inh v k) = ''string'' \<longleftrightarrow> typeof (get_prop v k) = ''string'')
   \<and> (typeof_v (member inh v k) = ''boolean'' \<longleftrightarrow> typeof (get_prop v k) = ''boolean'')
   \<and> (typeof (get_prop v k) = ''string'' \<or> typeof (get_prop v k) = ''boolean'' \<longrightarrow>
        member inh v k = Data (get_prop v k))"
  by (auto simp: member_def get_prop_not_own)

section \<open>Properties of the version helper\<close>

lemma digit_runs_Nil: "\<not> list_ex is_digit s \<Longrightarrow> digit_runs s = []"
  by (induction s rule: digit_runs.induct) auto

text \<open>
  C10 (as the code has it): \<open>getVersion\<close> returns the empty record when \<open>dependencies\<close> is
  absent, and when \<open>dependencies\<close> is an object that has no member \<open>name\<close>, neither of its
  own nor inherited; it throws a \<^verbatim>\<open>TypeError\<close> when \<open>name\<close> is not an own property but an
  inherited member (the member is truthy and has no \<^verbatim>\<open>match\<close>), and when the own
  property is a non-empty string with no decimal digit (the match is \<^verbatim>\<open>null\<close>, which
  cannot be destructured).
\<close>

theorem getVersion_no_digit_throws:
  "getVersion inh JUndefined name = Inr NoVersion
   \<and> (map_of deps name = None \<and> \<not> inh (JObj deps) name \<longrightarrow>
        getVersion inh (JObj deps) name = Inr NoVersion)
   \<and> (map_of deps name = None \<and> inh (JObj deps) name \<longrightarrow>
        getVersion inh (JObj deps) name = Inl TypeError)
   \<and> (map_of deps name = Some (JStr s) \<and> s \<noteq> [] \<and> \<not> list_ex is_digit s \<longrightarrow>
        getVersion inh (JObj deps) name = Inl TypeError)"
  by (simp add: getVersion_def member_def digit_runs_Nil)

theorem getVersion_no_digit_throws_witness:
  "getVersion inherits_object_prototype (JObj [(''left-pad'', JStr ''latest'')]) ''resolve''
     = Inr NoVersion
   \<and> getVersion inherits_object_prototype (JObj [(''left-pad'', JStr ''latest'')]) ''toString''
     = Inl TypeError
   \<and> getVersion inherits_object_prototype (JObj [(''left-pad'', JStr ''latest'')]) ''left-pad''
     = Inl TypeError"
  using getVersion_no_digit_throws [of inherits_object_prototype "''resolve''"
      "[(''left-pad'', JStr ''latest'')]" "[]"]
    getVersion_no_digit_throws [of inherits_object_prototype "''toString''"
      "[(''left-pad'', JStr ''latest'')]" "[]"]
    getVersion_no_digit_throws [of inherits_object_prototype "''left-pad''"
      "[(''left-pad'', JStr ''latest'')]" "''latest''"]
  by (simp add: is_digit_def inherits_object_prototype_def object_prototype_names_def)

text \<open>
  C10, as worded, fails: the empty dependencies object contains no entry for
  \<open>constructor\<close>, yet \<^verbatim>\<open>getVersion({}, 'constructor')\<close> reads the inherited function and
  throws instead of returning the empty record.
\<close>

theorem getVersion_inherited_counterexample:
  "map_of [] ''constructor'' = (None :: json option)
   \<and> getVersion inherits_object_prototype (JObj []) ''constructor'' = Inl TypeError
   \<and> getVersion inherits_object_prototype (JObj []) ''constructor'' \<noteq> Inr NoVersion"
  by (simp add: getVersion_def member_def inherits_object_prototype_def
      object_prototype_names_def)

section \<open>Properties of the listener bootstrap\<close>

text \<open>
  From a counter \<open>retry\<close>, the bootstrap binds the ports from \<open>port\<close> on until the counter
  has passed the ceiling: it fails with the last error when all of them fail, and returns
  the first port that binds.
\<close>

lemma getFreeServer_all_fail:
  "\<forall>k. retry + k \<le> Suc MAX_RETRY \<longrightarrow> listen (port + k) \<noteq> None \<Longrightarrow> retry \<le> Suc MAX_RETRY \<Longrightarrow>
     getFreeServer listen certs root port retry
       = Inl (the (listen (port + (Suc MAX_RETRY - retry))))"
proof (induction listen certs root port retry rule: getFreeServer.induct)
  case (1 listen certs root port retry)
  from "1.prems"(1) [rule_format, of 0] "1.prems"(2) obtain err where e: "listen port = Some err"
    by auto
  show ?case
  proof (cases "retry > MAX_RETRY")
    case True
    then have "retry = Suc MAX_RETRY"
      using "1.prems"(2) by simp
    then show ?thesis
      using e by (subst getFreeServer.simps) simp
  next
    case False
    have "getFreeServer listen certs root (port + 1) (retry + 1)
        = Inl (the (listen (port + 1 + (Suc MAX_RETRY - (retry + 1)))))"
    proof (rule "1.IH" [OF e False])
      show "\<forall>k. retry + 1 + k \<le> Suc MAX_RETRY \<longrightarrow> listen (port + 1 + k) \<noteq> None"
        using "1.prems"(1) by (metis add.assoc)
      show "retry + 1 \<le> Suc MAX_RETRY"
        using False by simp
    qed
    moreover have "port + 1 + (Suc MAX_RETRY - (retry + 1)) = port + (Suc MAX_RETRY - retry)"
      using False by simp
    ultimately show ?thesis
      using e False by (subst getFreeServer.simps) simp
  qed
qed

lemma getFreeServer_first_free:
  "retry + k \<le> Suc MAX_RETRY \<Longrightarrow> \<forall>j<k. listen (port + j) \<noteq> None \<Longrightarrow> listen (port + k) = None \<Longrightarrow>
     getFreeServer listen certs root port retry
       = Inr \<lparr>bound_certs = map (\<lambda>crt. drop (length root) crt) certs, bound_port = port + k\<rparr>"
proof (induction k arbitrary: port retry)
  case 0
  then show ?case by (subst getFreeServer.simps) simp
next
  case (Suc k)
  from Suc.prems(2) obtain err where e: "listen port = Some err"
    by (metis add_0_right not_None_eq zero_less_Suc)
  have r: "\<not> MAX_RETRY < retry"
    using Suc.prems(1) by simp
  have "getFreeServer listen certs root (port + 1) (retry + 1)
      = Inr \<lparr>bound_certs = map (\<lambda>crt. drop (length root) crt) certs, bound_port = port + 1 + k\<rparr>"
  proof (rule Suc.IH)
    show "retry + 1 + k \<le> Suc MAX_RETRY"
      using Suc.prems(1) by simp
    show "\<forall>j<k. listen (port + 1 + j) \<noteq> None"
      using Suc.prems(2) by (metis add.assoc plus_1_eq_Suc Suc_less_eq)
    show "listen (port + 1 + k) = None"
      using Suc.prems(3) by (simp add: add.assoc)
  qed
  then show ?case
    using e r by (subst getFreeServer.simps) simp
qed

lemma spec_getFreeServer_all_fail:
  "\<forall>k. attempts + k \<le> Suc MAX_RETRY \<longrightarrow> listen (port + k) \<noteq> None \<Longrightarrow> attempts \<le> Suc MAX_RETRY \<Longrightarrow>
     spec_getFreeServer listen certs root port attempts
       = Inl (the (listen (port + (Suc MAX_RETRY - attempts))))"
proof (induction listen certs root port attempts rule: spec_getFreeServer.induct)
  case (1 listen certs root port attempts)
  from "1.prems"(1) [rule_format, of 0] "1.prems"(2) obtain err where e: "listen port = Some err"
    by auto
  show ?case
  proof (cases "attempts > MAX_RETRY")
    case True
    then have "attempts = Suc MAX_RETRY"
      using "1.prems"(2) by simp
    then show ?thesis
      using e by (subst spec_getFreeServer.simps) simp
  next
    case False
    have "spec_getFreeServer listen certs root (port + 1) (attempts + 1)
        = Inl (the (listen (port + 1 + (Suc MAX_RETRY - (attempts + 1)))))"
    proof (rule "1.IH" [OF e False])
      show "\<forall>k. attempts + 1 + k \<le> Suc MAX_RETRY \<longrightarrow> listen (port + 1 + k) \<noteq> None"
        using "1.prems"(1) by (metis add.assoc)
      show "attempts + 1 \<le> Suc MAX_RETRY"
        using False by simp
    qed
    moreover have "port + 1 + (Suc MAX_RETRY - (attempts + 1)) = port + (Suc MAX_RETRY - attempts)"
      using False by simp
    ultimately show ?thesis
      using e False by (subst spec_getFreeServer.simps) simp
  qed
qed

text \<open>
  C6 (as the code has it): the ceiling is 30. When a bind fails, the bootstrap retries
  with the port and the counter \<open>retry\<close> incremented by 1 as long as \<open>retry\<close>, the number
  of binds made before the failing one, has not exceeded the ceiling, and fails with the
  bind's error once it has. Started as \<^verbatim>\<open>getServer\<close> starts it, with \<open>retry = 0\<close>, it
  therefore binds up to 32 ports, \<open>port\<close> to \<open>port + 31\<close>: it returns the first of them
  that binds, and fails, with the error of the bind on \<open>port + 31\<close>, only when all 32 are
  occupied.
\<close>

theorem getFreeServer_retry:
  "MAX_RETRY = 30
   \<and> (listen port = Some err \<and> retry \<le> MAX_RETRY \<longrightarrow>
        getFreeServer listen certs root port retry
          = getFreeServer listen certs root (port + 1) (retry + 1))
   \<and> (listen port = Some err \<and> MAX_RETRY < retry \<longrightarrow>
        getFreeServer listen certs root port retry = Inl err)
   \<and> (k \<le> 31 \<and> (\<forall>j<k. listen (port + j) \<noteq> None) \<and> listen (port + k) = None \<longrightarrow>
        getFreeServer listen certs root port 0
          = Inr \<lparr>bound_certs = map (\<lambda>crt. drop (length root) crt) certs, bound_port = port + k\<rparr>)
   \<and> ((\<forall>j\<le>31. listen (port + j) \<noteq> None) \<longrightarrow>
        getFreeServer listen certs root port 0 = Inl (the (listen (port + 31))))"
proof (intro conjI impI)
  show "MAX_RETRY = 30" by (simp add: MAX_RETRY_def)
next
  assume "listen port = Some err \<and> retry \<le> MAX_RETRY"
  then show "getFreeServer listen certs root port retry
      = getFreeServer listen certs root (port + 1) (retry + 1)"
    by (subst getFreeServer.simps) simp
next
  assume "listen port = Some err \<and> MAX_RETRY < retry"
  then show "getFreeServer listen certs root port retry = Inl err"
    by (subst getFreeServer.simps) simp
next
  assume "k \<le> 31 \<and> (\<forall>j<k. listen (port + j) \<noteq> None) \<and> listen (port + k) = None"
  then show "getFreeServer listen certs root port 0
      = Inr \<lparr>bound_certs = map (\<lambda>crt. drop (length root) crt) certs, bound_port = port + k\<rparr>"
    using getFreeServer_first_free [of 0 k listen port certs root] by (simp add: MAX_RETRY_def)
next
  assume "\<forall>j\<le>31. listen (port + j) \<noteq> None"
  then show "getFreeServer listen certs root port 0 = Inl (the (listen (port + 31)))"
    using getFreeServer_all_fail [of 0 listen port certs root] by (simp add: MAX_RETRY_def)
qed

theorem getFreeServer_retry_witness:
  "getFreeServer (occupied_below 8082) [''/app/cert.pem''] ''/app'' 8080 0
     = Inr \<lparr>bound_certs = [''/cert.pem''], bound_port = 8082\<rparr>
   \<and> getFreeServer (occupied_below 8112) [] [] 8080 0 = Inl (Error ''EADDRINUSE'')
   \<and> getFreeServer (occupied_below 9000) [] [] 8111 31 = Inl (Error ''EADDRINUSE'')"
proof -
  have h: "(2::nat) \<le> 31 \<and> (\<forall>j<2. occupied_below 8082 (8080 + j) \<noteq> None)
      \<and> occupied_below 8082 (8080 + 2) = None"
    by (simp add: occupied_below_def)
  with getFreeServer_retry [of "occupied_below 8082" 8080 "Error ''EADDRINUSE''" 0
      "[''/app/cert.pem'']" "''/app''" 2]
  have "getFreeServer (occupied_below 8082) [''/app/cert.pem''] ''/app'' 8080 0
     = Inr \<lparr>bound_certs = map (\<lambda>crt. drop (length ''/app'') crt) [''/app/cert.pem''],
          bound_port = 8080 + 2\<rparr>"
    by blast
  then have a: "getFreeServer (occupied_below 8082) [''/app/cert.pem''] ''/app'' 8080 0
     = Inr \<lparr>bound_certs = [''/cert.pem''], bound_port = 8082\<rparr>"
    by simp
  have hb: "\<forall>j\<le>31. occupied_below 8112 (8080 + j) \<noteq> None"
    by (simp add: occupied_below_def)
  with getFreeServer_retry [of "occupied_below 8112" 8080 "Error ''EADDRINUSE''" 0 "[]" "[]" 0]
  have "getFreeServer (occupied_below 8112) [] [] 8080 0
      = Inl (the (occupied_below 8112 (8080 + 31)))"
    by blast
  then have b: "getFreeServer (occupied_below 8112) [] [] 8080 0 = Inl (Error ''EADDRINUSE'')"
    by (simp add: occupied_below_def)
  have hc: "occupied_below 9000 8111 = Some (Error ''EADDRINUSE'') \<and> MAX_RETRY < 31"
    by (simp add: occupied_below_def MAX_RETRY_def)
  with getFreeServer_retry [of "occupied_below 9000" 8111 "Error ''EADDRINUSE''" 31 "[]" "[]" 0]
  have c: "getFreeServer (occupied_below 9000) [] [] 8111 31 = Inl (Error ''EADDRINUSE'')"
    by blast
  from a b c show ?thesis by simp
qed

text \<open>
  C6, as worded, fails: the number of attempts, the failing one included, exceeds 30 at
  the 31st failed bind, and 31 consecutive occupied ports are more than 30; yet with the
  31 ports \<open>8080\<close> to \<open>8110\<close> occupied the code goes on and binds \<open>8111\<close>, where the
  bootstrap as worded propagates the bind error.
\<close>

theorem getFreeServer_attempts_counterexample:
  "list_all (\<lambda>p. occupied_below 8111 p \<noteq> None) [8080..<8111]
   \<and> length [8080..<8111 :: nat] = 31
   \<and> getFreeServer (occupied_below 8111) [] [] 8080 0 = Inr \<lparr>bound_certs = [], bound_port = 8111\<rparr>
   \<and> spec_getFreeServer (occupied_below 8111) [] [] 8080 1 = Inl (Error ''EADDRINUSE'')"
proof -
  have 1: "list_all (\<lambda>p. occupied_below 8111 p \<noteq> None) [8080..<8111]"
    by (simp add: list_all_iff occupied_below_def)
  have 2: "getFreeServer (occupied_below 8111) [] [] 8080 0
      = Inr \<lparr>bound_certs = [], bound_port = 8111\<rparr>"
    using getFreeServer_first_free [of 0 31 "occupied_below 8111" 8080 "[]" "[]"]
    by (simp add: MAX_RETRY_def occupied_below_def)
  have 3: "spec_getFreeServer (occupied_below 8111) [] [] 8080 1 = Inl (Error ''EADDRINUSE'')"
    using spec_getFreeServer_all_fail [of 1 "occupied_below 8111" 8080 "[]" "[]"]
    by (simp add: MAX_RETRY_def occupied_below_def)
  from 1 2 3 show ?thesis by simp
qed

section \<open>Properties of the package descriptor cache and the entry resolver\<close>

text \<open>Without the search, reading a descriptor always returns.\<close>

lemma readPackageJSON_no_search:
  "\<exists>pkg cache'. readPackageJSON E FS cache dirPath False = Some (Inr (pkg, cache'))"
  unfolding readPackageJSON_def
  by (auto simp: Let_def split: option.splits)

text \<open>
  The walk up the directories returns when every step to the parent either leaves the path
  as it is or makes it shorter, as \<^verbatim>\<open>path.join(d, '..')\<close> does on a normalised absolute
  path.
\<close>

lemma walk_up_returns:
  assumes "\<And>d. path_join E d ''..'' = d \<or> length (path_join E d ''..'') < length d"
  shows "\<exists>r. walk_up E FS d prev = Some r"
proof (induction "length d" arbitrary: d prev rule: less_induct)
  case less
  show ?case
  proof (cases "d \<noteq> prev \<and> \<not> fs_pathExists FS (path_join E d ''package.json'')")
    case False
    then show ?thesis by (subst walk_up.simps) auto
  next
    case True
    let ?p = "path_join E d ''..''"
    have "\<exists>r. walk_up E FS ?p d = Some r"
    proof (cases "?p = d")
      case True
      then show ?thesis by (subst walk_up.simps) simp
    next
      case False
      with assms [of d] have "length ?p < length d" by simp
      from less [OF this] show ?thesis .
    qed
    with True show ?thesis by (subst walk_up.simps) simp
  qed
qed

lemma getPackageJSONDir_returns:
  assumes "\<And>d. path_join E d ''..'' = d \<or> length (path_join E d ''..'') < length d"
  shows "\<exists>r. getPackageJSONDir E FS dir = Some r"
  using walk_up_returns [OF assms, of FS dir "[]"]
  by (auto simp: getPackageJSONDir_def)

text \<open>
  When the mapping inherits neither of the two keys, the lookup finds what the mapping
  stores.
\<close>

lemma browser_main_entry_stored:
  assumes "\<not> inherits E (browser pkg) (''./'' @ to_string (main pkg))"
    and "\<not> inherits E (browser pkg) (to_string (main pkg))"
  shows "browser_main_entry E pkg = stored_main_entry pkg"
  using assms
  by (simp add: browser_main_entry_def stored_main_entry_def member_def get_prop_not_own)






section \<open>Properties of the browser-aware module resolver\<close>



















end
